theory Spec2Isabelle
  imports Complex_Main "HOL-Library.Product_Lexorder" "HOL-Library.Multiset"
begin

section \<open>Text: lowercasing and whole-word search\<close>

text \<open>
  Python strings are modelled as \<^typ>\<open>string\<close>; the development is about ASCII text, so
  \<open>str.lower\<close> maps \<open>A\<close>..\<open>Z\<close> to \<open>a\<close>..\<open>z\<close> and leaves every other character alone,
  and the regular-expression class \<open>\w\<close> is letters, digits and the underscore.
\<close>

definition lower_char :: "char \<Rightarrow> char" where
  "lower_char c =
     (case map_of (zip ''ABCDEFGHIJKLMNOPQRSTUVWXYZ'' ''abcdefghijklmnopqrstuvwxyz'') c of
        None \<Rightarrow> c
      | Some d \<Rightarrow> d)"

definition lower :: "string \<Rightarrow> string" where
  "lower s = map lower_char s"

definition is_word_char :: "char \<Rightarrow> bool" where
  "is_word_char c \<longleftrightarrow>
     c \<in> set ''abcdefghijklmnopqrstuvwxyzABCDEFGHIJKLMNOPQRSTUVWXYZ0123456789_''"

text \<open>
  \<open>\b\<close> matches between the character before the position (\<open>prev\<close>, \<open>None\<close> at the start
  of the text) and the text that follows, when exactly one side is a word character; the
  outside of the text counts as a non-word character.
\<close>

definition word_before :: "char option \<Rightarrow> bool" where
  "word_before prev = (case prev of None \<Rightarrow> False | Some c \<Rightarrow> is_word_char c)"

definition word_after :: "string \<Rightarrow> bool" where
  "word_after rest = (case rest of [] \<Rightarrow> False | c # _ \<Rightarrow> is_word_char c)"

definition word_boundary :: "char option \<Rightarrow> string \<Rightarrow> bool" where
  "word_boundary prev rest \<longleftrightarrow> word_before prev \<noteq> word_after rest"

definition last_char :: "char option \<Rightarrow> string \<Rightarrow> char option" where
  "last_char prev s = (if s = [] then prev else Some (last s))"

text \<open>
  \<open>match_here prev kw rest\<close>: the pattern \<open>\b\<close> + \<open>re.escape(kw)\<close> + \<open>\b\<close> matches at the
  position whose left neighbour is \<open>prev\<close> and whose right context is \<open>rest\<close>.
\<close>

definition match_here :: "char option \<Rightarrow> string \<Rightarrow> string \<Rightarrow> bool" where
  "match_here prev kw rest \<longleftrightarrow>
     word_boundary prev rest \<and> take (length kw) rest = kw \<and>
     word_boundary (last_char prev kw) (drop (length kw) rest)"

text \<open>\<open>re.search\<close> tries every position of the text, from left to right.\<close>

fun search_from :: "char option \<Rightarrow> string \<Rightarrow> string \<Rightarrow> bool" where
  "search_from prev kw [] = match_here prev kw []"
| "search_from prev kw (c # cs) = (match_here prev kw (c # cs) \<or> search_from (Some c) kw cs)"

definition re_search_word :: "string \<Rightarrow> string \<Rightarrow> bool" where
  "re_search_word kw text = search_from None kw text"

section \<open>Priority analyzer (priority\_analyzer.py)\<close>

datatype PriorityLevel = CRITICAL | HIGH | MEDIUM | LOW

fun level_value :: "PriorityLevel \<Rightarrow> nat" where
  "level_value CRITICAL = 1"
| "level_value HIGH = 2"
| "level_value MEDIUM = 3"
| "level_value LOW = 4"

fun level_name :: "PriorityLevel \<Rightarrow> string" where
  "level_name CRITICAL = ''CRITICAL''"
| "level_name HIGH = ''HIGH''"
| "level_name MEDIUM = ''MEDIUM''"
| "level_name LOW = ''LOW''"

text \<open>The members of the enumeration, in the order in which Python iterates over it.\<close>

definition all_levels :: "PriorityLevel list" where
  "all_levels = [CRITICAL, HIGH, MEDIUM, LOW]"

text \<open>
  The result of an analysis. The source's \<open>PriorityResult\<close> also carries a rationale
  string that formats the score with one decimal; the allocator never reads it.
\<close>

record PriorityResult =
  priority_level :: PriorityLevel
  priority_score :: real
  matched_keywords :: "string list"

text \<open>Floats are modelled as exact reals. The keyword tables, in insertion order:\<close>

definition critical_keywords :: "(string \<times> real) list" where
  "critical_keywords = [
    (''down'', 10), (''outage'', 10), (''crashed'', 9), (''unreachable'', 8), (''offline'', 8),
    (''not responding'', 8), (''completely broken'', 9), (''total failure'', 10),
    (''system failure'', 9), (''service unavailable'', 9), (''cannot access'', 7),
    (''all users affected'', 8), (''widespread'', 7), (''business critical'', 9),
    (''production down'', 10), (''emergency'', 10), (''urgent'', 8), (''immediately'', 8),
    (''critical'', 9), (''severe'', 8), (''catastrophic'', 10), (''security breach'', 10),
    (''hacked'', 10), (''malware'', 9), (''virus'', 8), (''data breach'', 10),
    (''unauthorized access'', 9), (''compromised'', 9), (''server down'', 9),
    (''network down'', 9), (''database down'', 10), (''backup failed'', 8),
    (''corruption'', 8), (''data loss'', 9)]"

definition high_keywords :: "(string \<times> real) list" where
  "high_keywords = [
    (''broken'', 6), (''failing'', 6), (''error'', 5), (''problems'', 4), (''issues'', 4),
    (''not working'', 6), (''malfunctioning'', 6), (''stuck'', 5), (''frozen'', 6),
    (''slow'', 4), (''performance'', 4), (''timeout'', 5), (''intermittent'', 5),
    (''frequent'', 5), (''multiple users'', 5), (''department affected'', 6),
    (''productivity impact'', 6), (''blocking'', 6), (''prevents work'', 6), (''deadline'', 7),
    (''presentation'', 6), (''meeting'', 5), (''client'', 6), (''customer'', 6),
    (''important'', 5), (''asap'', 6), (''soon'', 4), (''today'', 5), (''tomorrow'', 6),
    (''cannot login'', 6), (''access denied'', 6), (''locked out'', 6),
    (''authentication'', 5), (''permissions'', 4), (''hardware failure'', 7),
    (''hardware'', 4), (''device'', 3), (''laptop'', 3), (''printer'', 3)]"

definition medium_keywords :: "(string \<times> real) list" where
  "medium_keywords = [
    (''help'', 2), (''assistance'', 2), (''support'', 2), (''question'', 2), (''how to'', 2),
    (''configure'', 2), (''setup'', 2), (''install'', 2), (''update'', 2), (''upgrade'', 2),
    (''request'', 2), (''need'', 2), (''would like'', 2), (''minor'', 1), (''small'', 1),
    (''quick'', 2), (''whenever convenient'', 1), (''next week'', 1), (''training'', 2),
    (''documentation'', 2), (''clarification'', 2), (''guidance'', 2), (''maintenance'', 2),
    (''routine'', 1), (''scheduled'', 1), (''planned'', 1)]"

definition low_keywords :: "(string \<times> real) list" where
  "low_keywords = [
    (''enhancement'', 1), (''feature request'', 1), (''improvement'', 1), (''suggestion'', 1),
    (''optimization'', 1), (''nice to have'', 0.5), (''when possible'', 0.5),
    (''future'', 0.5), (''eventually'', 0.5), (''cosmetic'', 0.5), (''aesthetic'', 0.5),
    (''convenience'', 1), (''preference'', 0.5), (''general'', 1), (''information'', 1),
    (''inquiry'', 1), (''feedback'', 1)]"

definition impact_multipliers :: "(string \<times> real) list" where
  "impact_multipliers = [
    (''all users'', 2), (''entire'', 2), (''whole'', 2), (''company'', 2),
    (''organization'', 2), (''everyone'', 2), (''multiple departments'', 1.8),
    (''department'', 1.5), (''team'', 1.3), (''group'', 1.3), (''several users'', 1.4),
    (''many users'', 1.4), (''revenue'', 2.5), (''business'', 2), (''production'', 2.5),
    (''customer'', 2), (''client'', 2), (''public'', 2), (''external'', 1.8),
    (''reputation'', 2), (''brand'', 2), (''compliance'', 2.2), (''audit'', 2),
    (''legal'', 2.2), (''regulatory'', 2.2), (''now'', 1.8), (''immediately'', 2),
    (''asap'', 1.8), (''urgent'', 1.8), (''today'', 1.5), (''this morning'', 1.6),
    (''right now'', 2), (''before'', 1.5), (''deadline'', 1.8), (''meeting'', 1.4),
    (''presentation'', 1.6), (''demo'', 1.5), (''again'', 1.3), (''repeatedly'', 1.5),
    (''frequently'', 1.4), (''constantly'', 1.6), (''always'', 1.4), (''continuous'', 1.5),
    (''ongoing'', 1.4), (''persistent'', 1.4)]"

text \<open>\<open>self.urgency_keywords\<close>: one table per level, in the order of the dictionary.\<close>

definition urgency_keywords :: "(PriorityLevel \<times> (string \<times> real) list) list" where
  "urgency_keywords =
     [(CRITICAL, critical_keywords), (HIGH, high_keywords),
      (MEDIUM, medium_keywords), (LOW, low_keywords)]"

definition find_keyword_in_text :: "string \<Rightarrow> string \<Rightarrow> bool" where
  "find_keyword_in_text keyword text = re_search_word (lower keyword) (lower text)"

text \<open>
  The inner loop of \<open>analyze_priority\<close> over one level's table: every matching keyword
  adds its weight to the level's score and is appended to \<open>matched_keywords\<close>.
\<close>

fun scan_keywords :: "(string \<times> real) list \<Rightarrow> string \<Rightarrow> real \<times> string list \<Rightarrow> real \<times> string list" where
  "scan_keywords [] full_text acc = acc"
| "scan_keywords ((keyword, weight) # rest) full_text (score, matched) =
     (if find_keyword_in_text keyword full_text
      then scan_keywords rest full_text (score + weight, matched @ [keyword])
      else scan_keywords rest full_text (score, matched))"

text \<open>
  The outer loop over the levels. \<open>priority_scores\<close> is a dictionary with a key for every
  level from the start, so it is a total function here.
\<close>

fun scan_levels ::
  "(PriorityLevel \<times> (string \<times> real) list) list \<Rightarrow> string \<Rightarrow>
   (PriorityLevel \<Rightarrow> real) \<times> string list \<Rightarrow> (PriorityLevel \<Rightarrow> real) \<times> string list" where
  "scan_levels [] full_text acc = acc"
| "scan_levels ((level, keywords) # rest) full_text (priority_scores, matched) =
     (case scan_keywords keywords full_text (priority_scores level, matched) of
        (score, matched') \<Rightarrow>
          scan_levels rest full_text (priority_scores(level := score), matched'))"

text \<open>The loop over the impact phrases keeps the largest multiplier seen so far.\<close>

fun scan_impact :: "(string \<times> real) list \<Rightarrow> string \<Rightarrow> real \<Rightarrow> real" where
  "scan_impact [] full_text impact_multiplier = impact_multiplier"
| "scan_impact ((impact_phrase, multiplier) # rest) full_text impact_multiplier =
     (if find_keyword_in_text impact_phrase full_text
      then scan_impact rest full_text (max impact_multiplier multiplier)
      else scan_impact rest full_text impact_multiplier)"

text \<open>\<open>max(scores.values())\<close> over the four levels, in dictionary order.\<close>

definition max_of_scores :: "(PriorityLevel \<Rightarrow> real) \<Rightarrow> real" where
  "max_of_scores scores = fold max (map scores (tl all_levels)) (scores (hd all_levels))"

definition determine_winning_priority :: "(PriorityLevel \<Rightarrow> real) \<Rightarrow> PriorityLevel" where
  "determine_winning_priority scores =
     (let max_score = max_of_scores scores in
      if max_score = 0 then MEDIUM
      else (case find (\<lambda>level. scores level = max_score) all_levels of
              Some level \<Rightarrow> level
            | None \<Rightarrow> MEDIUM))"

definition full_text_of :: "string \<Rightarrow> string \<Rightarrow> string" where
  "full_text_of title description = lower (title @ '' '' @ description)"

definition raw_scores :: "string \<Rightarrow> PriorityLevel \<Rightarrow> real" where
  "raw_scores full_text = fst (scan_levels urgency_keywords full_text (\<lambda>level. 0, []))"

definition impact_multiplier_of :: "string \<Rightarrow> real" where
  "impact_multiplier_of full_text = scan_impact impact_multipliers full_text 1"

definition final_scores :: "string \<Rightarrow> PriorityLevel \<Rightarrow> real" where
  "final_scores full_text = (\<lambda>level. raw_scores full_text level * impact_multiplier_of full_text)"

definition analyze_priority :: "string \<Rightarrow> string \<Rightarrow> PriorityResult" where
  "analyze_priority title description =
     (let full_text = full_text_of title description;
          winning_priority = determine_winning_priority (final_scores full_text)
      in \<lparr> priority_level = winning_priority,
           priority_score = final_scores full_text winning_priority,
           matched_keywords = snd (scan_levels urgency_keywords full_text (\<lambda>level. 0, [])) \<rparr>)"

section \<open>Ticket assignment (ticket\_assignment\_system.py)\<close>

text \<open>
  Tickets and agents are the dictionaries of the dataset, with the fields the core reads.
  A field read with \<open>.get(key, default)\<close> holds the default when the key is missing.
\<close>

record ticket =
  ticket_id :: string
  title :: string
  description :: string

record agent =
  agent_id :: string
  name :: string
  skills :: "(string \<times> int) list"
  availability_status :: string
  experience_level :: int
  current_load :: int

record dataset =
  agents :: "agent list"
  tickets :: "ticket list"

record AgentAssignment =
  ticket_id :: string
  assigned_agent_id :: string
  rationale :: string
  priority_level :: string
  priority_score :: real
  skill_match_score :: real
  workload_factor :: real
  final_score :: real

datatype py_error = KeyError

type_synonym workloads = "string \<rightharpoonup> int"

definition skill_keywords :: "(string \<times> string list) list" where
  "skill_keywords = [
    (''Networking'', [
      ''vpn'', ''network'', ''networking'', ''router'', ''switch'', ''firewall'', ''dns'',
      ''dhcp'', ''tcp'', ''ip'', ''subnet'', ''vlan'', ''wifi'', ''wireless'', ''connection'',
      ''connectivity'', ''ping'', ''traceroute'', ''bandwidth'']),
    (''Linux_Administration'', [
      ''linux'', ''ubuntu'', ''centos'', ''redhat'', ''bash'', ''shell'', ''terminal'',
      ''ssh'', ''sudo'', ''chmod'', ''chown'', ''cron'', ''systemd'', ''apache'', ''nginx'',
      ''mysql'', ''postgresql'', ''server'', ''unix'']),
    (''Cloud_AWS'', [
      ''aws'', ''amazon'', ''ec2'', ''s3'', ''cloudformation'', ''lambda'', ''rds'', ''vpc'',
      ''cloudwatch'', ''iam'', ''route53'', ''elb'', ''auto scaling'', ''azure'', ''cloud'',
      ''hosting'']),
    (''VPN_Troubleshooting'', [
      ''vpn'', ''tunnel'', ''ipsec'', ''l2tp'', ''pptp'', ''openvpn'', ''remote access'',
      ''site-to-site'', ''authentication'', ''concentrator'', ''client'', ''endpoint'']),
    (''Hardware_Diagnostics'', [
      ''hardware'', ''diagnostic'', ''memory'', ''ram'', ''cpu'', ''disk'', ''ssd'', ''hdd'',
      ''motherboard'', ''power supply'', ''fan'', ''temperature'', ''bios'', ''uefi'',
      ''boot'', ''POST'']),
    (''Windows_Server_2022'', [
      ''windows server'', ''server 2022'', ''server 2019'', ''server 2016'', ''iis'',
      ''hyper-v'', ''powershell'', ''registry'', ''event viewer'', ''services'', ''roles'',
      ''features'']),
    (''Active_Directory'', [
      ''active directory'', ''ad'', ''domain controller'', ''dc'', ''group policy'', ''gpo'',
      ''ldap'', ''kerberos'', ''ntlm'', ''forest'', ''domain'', ''ou'', ''user account'',
      ''computer account'']),
    (''Virtualization_VMware'', [
      ''vmware'', ''vsphere'', ''vcenter'', ''esxi'', ''virtual machine'', ''vm'',
      ''hypervisor'', ''virtualization'', ''snapshot'', ''vmotion'', ''ha'', ''drs'']),
    (''Software_Licensing'', [
      ''license'', ''licensing'', ''activation'', ''key'', ''volume licensing'', ''cal'',
      ''subscription'', ''office 365'', ''microsoft 365'']),
    (''Network_Security'', [
      ''security'', ''firewall'', ''intrusion'', ''malware'', ''antivirus'', ''threat'',
      ''vulnerability'', ''patch'', ''encryption'', ''certificate'', ''ssl'', ''tls'']),
    (''Database_SQL'', [
      ''database'', ''sql'', ''mysql'', ''postgresql'', ''oracle'', ''sql server'', ''query'',
      ''table'', ''index'', ''backup'', ''restore'', ''replication'']),
    (''Firewall_Configuration'', [
      ''firewall'', ''iptables'', ''pfsense'', ''checkpoint'', ''fortigate'', ''cisco asa'',
      ''rules'', ''acl'', ''port'', ''protocol'', ''block'', ''allow'']),
    (''Identity_Management'', [
      ''identity'', ''sso'', ''saml'', ''oauth'', ''ldap'', ''authentication'',
      ''authorization'', ''mfa'', ''2fa'', ''identity provider'', ''federation'']),
    (''SaaS_Integrations'', [
      ''saas'', ''integration'', ''api'', ''webhook'', ''connector'', ''salesforce'',
      ''servicenow'', ''slack'', ''teams'', ''sharepoint'', ''onedrive'']),
    (''Microsoft_365'', [
      ''microsoft 365'', ''office 365'', ''outlook'', ''word'', ''excel'', ''powerpoint'',
      ''teams'', ''sharepoint'', ''onedrive'', ''exchange'', ''azure ad'']),
    (''SharePoint_Online'', [
      ''sharepoint'', ''sharepoint online'', ''site collection'', ''document library'',
      ''list'', ''workflow'', ''permissions'', ''search'', ''content type'']),
    (''PowerShell_Scripting'', [
      ''powershell'', ''script'', ''cmdlet'', ''pipeline'', ''automation'', ''dsc'',
      ''remoting'', ''ise'', ''gallery'', ''module'']),
    (''Laptop_Repair'', [
      ''laptop'', ''notebook'', ''screen'', ''keyboard'', ''touchpad'', ''battery'',
      ''charger'', ''adapter'', ''hinge'', ''repair'']),
    (''Printer_Support'', [
      ''printer'', ''printing'', ''toner'', ''ink'', ''paper jam'', ''queue'', ''driver'',
      ''spooler'', ''network printer''])]"
text \<open>\<open>self.skill_keywords.get(skill_name, [])\<close>\<close>

definition keywords_for_skill :: "string \<Rightarrow> string list" where
  "keywords_for_skill skill_name =
     (case map_of skill_keywords skill_name of None \<Rightarrow> [] | Some keywords \<Rightarrow> keywords)"

text \<open>The loop over one skill's keywords counts those found in the text.\<close>

fun count_keyword_matches :: "string list \<Rightarrow> string \<Rightarrow> nat \<Rightarrow> nat" where
  "count_keyword_matches [] full_text keyword_matches = keyword_matches"
| "count_keyword_matches (keyword # rest) full_text keyword_matches =
     (if re_search_word (lower keyword) full_text
      then count_keyword_matches rest full_text (keyword_matches + 1)
      else count_keyword_matches rest full_text keyword_matches)"

text \<open>The loop over the agent's skills accumulates \<open>total_score\<close> and \<open>matched_skills\<close>.\<close>

fun scan_skills :: "(string \<times> int) list \<Rightarrow> string \<Rightarrow> real \<times> nat \<Rightarrow> real \<times> nat" where
  "scan_skills [] full_text acc = acc"
| "scan_skills ((skill_name, skill_level) # rest) full_text (total_score, matched_skills) =
     (let keyword_matches = count_keyword_matches (keywords_for_skill skill_name) full_text 0 in
      if keyword_matches > 0
      then scan_skills rest full_text
             (total_score + (real_of_int skill_level / 10) * min (real keyword_matches / 3) 1,
              matched_skills + 1)
      else scan_skills rest full_text (total_score, matched_skills))"

definition skill_text :: "ticket \<Rightarrow> string" where
  "skill_text t = lower (title t) @ '' '' @ lower (description t)"

definition calculate_skill_match :: "ticket \<Rightarrow> agent \<Rightarrow> real" where
  "calculate_skill_match t a =
     (case scan_skills (skills a) (skill_text t) (0, 0) of
        (total_score, matched_skills) \<Rightarrow>
          if matched_skills = 0 then 0 else min (total_score / real matched_skills) 1)"

fun get_priority_multiplier :: "PriorityLevel \<Rightarrow> real" where
  "get_priority_multiplier CRITICAL = 1.0"
| "get_priority_multiplier HIGH = 0.8"
| "get_priority_multiplier MEDIUM = 0.6"
| "get_priority_multiplier LOW = 0.4"

text \<open>\<open>str\<close> of an integer, for the f-strings of the rationale.\<close>

definition digit_char :: "nat \<Rightarrow> char" where
  "digit_char d = ''0123456789'' ! d"

fun str_nat :: "nat \<Rightarrow> string" where
  "str_nat n = (if n < 10 then [digit_char n] else str_nat (n div 10) @ [digit_char (n mod 10)])"

declare str_nat.simps [simp del]

definition str_int :: "int \<Rightarrow> string" where
  "str_int i = (if i < 0 then ''-'' @ str_nat (nat (- i)) else str_nat (nat i))"

fun join_words :: "string list \<Rightarrow> string" where
  "join_words [] = []"
| "join_words [w] = w"
| "join_words (w # ws) = w @ '' '' @ join_words ws"

definition generate_assignment_rationale ::
  "agent \<Rightarrow> real \<Rightarrow> real \<Rightarrow> real \<Rightarrow> PriorityResult \<Rightarrow> int \<Rightarrow> string" where
  "generate_assignment_rationale a skill_score wl_factor experience_bonus priority_result load =
     (let part_name = [''Assigned to '' @ name a @ '' ('' @ agent_id a @ '')''];
          part_skill =
            [if skill_score > 0.7 then ''based on excellent skill match''
             else if skill_score > 0.4 then ''based on good skill match''
             else if skill_score > 0.1 then ''based on partial skill match''
             else ''due to availability''];
          part_experience =
            (if experience_level a \<ge> 10
             then [''and high experience level ('' @ str_int (experience_level a) @ '' years)'']
             else if experience_level a \<ge> 5
             then [''and good experience ('' @ str_int (experience_level a) @ '' years)'']
             else []);
          part_workload =
            (if load \<le> 2 then [''with low current workload'']
             else if load \<le> 4 then [''with moderate workload'']
             else if load > 6 then [''despite high workload (best available)'']
             else []);
          part_priority =
            (if PriorityResult.priority_level priority_result \<in> set [CRITICAL, HIGH]
             then [''for this '' @ level_name (PriorityResult.priority_level priority_result)
                   @ '' priority ticket'']
             else [])
      in join_words (part_name @ part_skill @ part_experience @ part_workload @ part_priority)
         @ ''.'')"

text \<open>The five \<open>best_*\<close> variables of \<open>_assign_single_ticket\<close>.\<close>

record best =
  best_agent :: "agent option"
  best_score :: real
  best_rationale :: string
  best_skill_score :: real
  best_workload_factor :: real

definition initial_best :: best where
  "initial_best =
     \<lparr> best_agent = None, best_score = - 1, best_rationale = '''',
       best_skill_score = 0, best_workload_factor = 0 \<rparr>"

definition is_available :: "agent \<Rightarrow> bool" where
  "is_available a \<longleftrightarrow> lower (availability_status a) = ''available''"

text \<open>\<open>current_workloads.get(agent['agent_id'], 0)\<close>\<close>

definition load_of :: "workloads \<Rightarrow> agent \<Rightarrow> int" where
  "load_of current_workloads a =
     (case current_workloads (agent_id a) of None \<Rightarrow> 0 | Some n \<Rightarrow> n)"

text \<open>The loop over the agents: unavailable agents are skipped, and an agent replaces the
  best one so far only when its score is strictly greater.\<close>

fun select_agent ::
  "ticket \<Rightarrow> PriorityResult \<Rightarrow> workloads \<Rightarrow> agent list \<Rightarrow> best \<Rightarrow> best" where
  "select_agent t priority_result current_workloads [] b = b"
| "select_agent t priority_result current_workloads (a # rest) b =
     (if \<not> is_available a then select_agent t priority_result current_workloads rest b
      else
        let skill_score = calculate_skill_match t a;
            load = load_of current_workloads a;
            wl_factor = max 0 ((8 - real_of_int load) / 8);
            experience_bonus = min (real_of_int (experience_level a) / 15) 1;
            priority_multiplier =
              get_priority_multiplier (PriorityResult.priority_level priority_result);
            score = skill_score * 0.4 + wl_factor * 0.25 + experience_bonus * 0.2
                    + priority_multiplier * 0.15
        in if score > best_score b
           then select_agent t priority_result current_workloads rest
                  \<lparr> best_agent = Some a, best_score = score,
                    best_rationale =
                      generate_assignment_rationale a skill_score wl_factor experience_bonus
                        priority_result load,
                    best_skill_score = skill_score, best_workload_factor = wl_factor \<rparr>
           else select_agent t priority_result current_workloads rest b)"

text \<open>The fallback after the loop gives the agent identifier and the rationale.\<close>

definition fallback_choice :: "agent list \<Rightarrow> string \<times> string" where
  "fallback_choice ags =
     (case filter is_available ags of
        a # _ \<Rightarrow>
          (agent_id a,
           ''Assigned to '' @ name a
             @ '' (first available agent) due to no strong skill matches.'')
      | [] \<Rightarrow>
          (case ags of a # _ \<Rightarrow> agent_id a | [] \<Rightarrow> ''agent_001'',
           ''Emergency assignment - no available agents found.''))"

definition assign_single_ticket :: "ticket \<Rightarrow> agent list \<Rightarrow> workloads \<Rightarrow> AgentAssignment" where
  "assign_single_ticket t ags current_workloads =
     (let priority_result = analyze_priority (title t) (description t);
          b = select_agent t priority_result current_workloads ags initial_best;
          chosen = (case best_agent b of
                      Some a \<Rightarrow> (agent_id a, best_rationale b)
                    | None \<Rightarrow> fallback_choice ags)
      in \<lparr> ticket_id = ticket.ticket_id t,
           assigned_agent_id = fst chosen,
           rationale = snd chosen,
           priority_level = level_name (PriorityResult.priority_level priority_result),
           priority_score = PriorityResult.priority_score priority_result,
           skill_match_score = best_skill_score b,
           workload_factor = best_workload_factor b,
           final_score = best_score b \<rparr>)"

text \<open>Tickets are classified and sorted by \<open>(priority_level.value, -priority_score)\<close>;
  \<open>list.sort\<close> is stable.\<close>

definition sort_key_of :: "ticket \<times> PriorityResult \<Rightarrow> nat \<times> real" where
  "sort_key_of x =
     (level_value (PriorityResult.priority_level (snd x)),
      - PriorityResult.priority_score (snd x))"

definition prioritize_tickets :: "ticket list \<Rightarrow> ticket list" where
  "prioritize_tickets ts =
     (let ticket_priorities = map (\<lambda>t. (t, analyze_priority (title t) (description t))) ts
      in map fst (sort_key sort_key_of ticket_priorities))"

text \<open>The dictionary comprehension that builds \<open>agent_workloads\<close>: a later agent with
  the same identifier overwrites an earlier one.\<close>

definition initial_workloads :: "agent list \<Rightarrow> workloads" where
  "initial_workloads ags = fold (\<lambda>a m. m(agent_id a \<mapsto> current_load a)) ags Map.empty"

text \<open>The main loop. \<open>agent_workloads[assignment.assigned_agent_id] += 1\<close> raises
  \<open>KeyError\<close> when the identifier is not a key of the dictionary.\<close>

fun assign_loop ::
  "ticket list \<Rightarrow> agent list \<Rightarrow> AgentAssignment list \<times> workloads \<Rightarrow>
   py_error + AgentAssignment list \<times> workloads" where
  "assign_loop [] ags state = Inr state"
| "assign_loop (t # rest) ags (assignments, agent_workloads) =
     (let assignment = assign_single_ticket t ags agent_workloads in
      case agent_workloads (assigned_agent_id assignment) of
        None \<Rightarrow> Inl KeyError
      | Some n \<Rightarrow>
          assign_loop rest ags
            (assignments @ [assignment],
             agent_workloads(assigned_agent_id assignment \<mapsto> n + 1)))"

definition assign_tickets :: "dataset \<Rightarrow> py_error + AgentAssignment list" where
  "assign_tickets d =
     (case assign_loop (prioritize_tickets (tickets d)) (agents d)
             ([], initial_workloads (agents d)) of
        Inl e \<Rightarrow> Inl e
      | Inr (assignments, agent_workloads) \<Rightarrow> Inr assignments)"

section \<open>Specification-level notions\<close>

text \<open>
  The quantities the specification speaks about, written after its wording: the sum of the
  weights of the keywords of a level that occur in the text, the multipliers of the impact
  phrases that occur in it, and the final score of a level.
\<close>

definition keyword_weight_sum :: "(string \<times> real) list \<Rightarrow> string \<Rightarrow> real" where
  "keyword_weight_sum keywords full_text =
     sum_list (map snd (filter (\<lambda>kw. find_keyword_in_text (fst kw) full_text) keywords))"

fun keywords_of :: "PriorityLevel \<Rightarrow> (string \<times> real) list" where
  "keywords_of CRITICAL = critical_keywords"
| "keywords_of HIGH = high_keywords"
| "keywords_of MEDIUM = medium_keywords"
| "keywords_of LOW = low_keywords"

definition matching_multipliers :: "string \<Rightarrow> real list" where
  "matching_multipliers full_text =
     map snd (filter (\<lambda>p. find_keyword_in_text (fst p) full_text) impact_multipliers)"

definition spec_impact_multiplier :: "string \<Rightarrow> real" where
  "spec_impact_multiplier full_text =
     (if matching_multipliers full_text = [] then 1 else Max (set (matching_multipliers full_text)))"

definition spec_final_score :: "string \<Rightarrow> string \<Rightarrow> PriorityLevel \<Rightarrow> real" where
  "spec_final_score ttl descr level =
     keyword_weight_sum (keywords_of level) (full_text_of ttl descr)
       * spec_impact_multiplier (full_text_of ttl descr)"


text \<open>
  For the skill score: the number of keywords of a skill that occur in the text, the
  contribution of a skill, the declared skills with at least one match, and their average.
\<close>

definition match_count :: "string \<Rightarrow> string \<Rightarrow> nat" where
  "match_count skill_name full_text =
     length (filter (\<lambda>keyword. re_search_word (lower keyword) full_text)
               (keywords_for_skill skill_name))"

definition skill_contribution :: "string \<Rightarrow> string \<times> int \<Rightarrow> real" where
  "skill_contribution full_text sk =
     (real_of_int (snd sk) / 10) * min (real (match_count (fst sk) full_text) / 3) 1"

definition matched_skills_of :: "string \<Rightarrow> (string \<times> int) list \<Rightarrow> (string \<times> int) list" where
  "matched_skills_of full_text sks = filter (\<lambda>sk. match_count (fst sk) full_text > 0) sks"

definition spec_skill_score :: "string \<Rightarrow> (string \<times> int) list \<Rightarrow> real" where
  "spec_skill_score full_text sks =
     (if matched_skills_of full_text sks = [] then 0
      else sum_list (map (skill_contribution full_text) (matched_skills_of full_text sks))
           / real (length (matched_skills_of full_text sks)))"

definition known_skill :: "string \<times> int \<Rightarrow> bool" where
  "known_skill sk \<longleftrightarrow> map_of skill_keywords (fst sk) \<noteq> None"


text \<open>
  An auxiliary prefix test, used to evaluate the search on concrete text from left to
  right.
\<close>

fun starts_with :: "string \<Rightarrow> string \<Rightarrow> bool" where
  "starts_with [] rest = True"
| "starts_with (k # ks) [] = False"
| "starts_with (k # ks) (c # cs) = (if k = c then starts_with ks cs else False)"


definition classify :: "ticket \<Rightarrow> PriorityResult" where
  "classify t = analyze_priority (title t) (description t)"

definition ticket_key :: "ticket \<Rightarrow> nat \<times> real" where
  "ticket_key t =
     (level_value (PriorityResult.priority_level (classify t)),
      - PriorityResult.priority_score (classify t))"

text \<open>
  The composite score of a candidate, after the specification's formula, and the state of
  the \<open>best_*\<close> variables after the loop has taken a candidate.
\<close>

definition workload_factor_of :: "workloads \<Rightarrow> agent \<Rightarrow> real" where
  "workload_factor_of wl a = max 0 ((8 - real_of_int (load_of wl a)) / 8)"

definition experience_bonus_of :: "agent \<Rightarrow> real" where
  "experience_bonus_of a = min (real_of_int (experience_level a) / 15) 1"

definition priority_constant :: "PriorityLevel \<Rightarrow> real" where
  "priority_constant level =
     (case level of CRITICAL \<Rightarrow> 1.0 | HIGH \<Rightarrow> 0.8 | MEDIUM \<Rightarrow> 0.6 | LOW \<Rightarrow> 0.4)"

definition composite_score :: "ticket \<Rightarrow> workloads \<Rightarrow> agent \<Rightarrow> real" where
  "composite_score t wl a =
     0.4 * calculate_skill_match t a + 0.25 * workload_factor_of wl a
     + 0.2 * experience_bonus_of a
     + 0.15 * priority_constant (PriorityResult.priority_level (classify t))"

definition chosen_best :: "ticket \<Rightarrow> workloads \<Rightarrow> agent \<Rightarrow> best" where
  "chosen_best t wl a =
     \<lparr> best_agent = Some a, best_score = composite_score t wl a,
       best_rationale =
         generate_assignment_rationale a (calculate_skill_match t a) (workload_factor_of wl a)
           (experience_bonus_of a) (classify t) (load_of wl a),
       best_skill_score = calculate_skill_match t a,
       best_workload_factor = workload_factor_of wl a \<rparr>"


definition emergency_rationale :: string where
  "emergency_rationale = ''Emergency assignment - no available agents found.''"

text \<open>
  The workload counters after a list of commits: every counter of the starting dictionary
  plus the number of records that were assigned to its agent.
\<close>

definition commits_to :: "string \<Rightarrow> AgentAssignment list \<Rightarrow> int" where
  "commits_to ident recs = int (length (filter (\<lambda>r. assigned_agent_id r = ident) recs))"

definition counters_after :: "workloads \<Rightarrow> AgentAssignment list \<Rightarrow> workloads" where
  "counters_after wl recs = (\<lambda>ident. map_option (\<lambda>n. n + commits_to ident recs) (wl ident))"


text \<open>The four availability states of the data model.\<close>

definition valid_statuses :: "string set" where
  "valid_statuses = {''Available'', ''Busy'', ''Offline'', ''On Leave''}"


section \<open>Example data\<close>

definition example_ticket :: ticket where
  "example_ticket =
     \<lparr> ticket.ticket_id = ''TKT-001'', title = ''vpn down'', description = ''now'' \<rparr>"

definition help_ticket :: ticket where
  "help_ticket = \<lparr> ticket.ticket_id = ''TKT-002'', title = ''help'', description = [] \<rparr>"

definition agent_ann :: agent where
  "agent_ann =
     \<lparr> agent_id = ''agent_001'', name = ''Ann'',
       skills = [(''Networking'', 9), (''Juggling'', 5)],
       availability_status = ''Available'', experience_level = 10, current_load = 0 \<rparr>"

definition agent_bob :: agent where
  "agent_bob =
     \<lparr> agent_id = ''agent_002'', name = ''Bob'', skills = [(''Printer_Support'', 3)],
       availability_status = ''Available'', experience_level = 3, current_load = 2 \<rparr>"

definition agent_off :: agent where
  "agent_off =
     \<lparr> agent_id = ''agent_003'', name = ''Cy'', skills = [(''Networking'', 7)],
       availability_status = ''Offline'', experience_level = 5, current_load = 0 \<rparr>"


definition ann_dataset :: dataset where
  "ann_dataset = \<lparr> agents = [agent_ann], tickets = [example_ticket] \<rparr>"

definition offline_dataset :: dataset where
  "offline_dataset = \<lparr> agents = [agent_off], tickets = [help_ticket, example_ticket] \<rparr>"

section \<open>Evaluating the search\<close>

lemma starts_with_take: "starts_with kw rest \<longleftrightarrow> take (length kw) rest = kw"
  by (induction kw rest rule: starts_with.induct) auto

lemma match_here_eval [code]:
  "match_here prev kw rest =
     (if starts_with kw rest
      then (if word_boundary prev rest
            then word_boundary (last_char prev kw) (drop (length kw) rest) else False)
      else False)"
  by (auto simp: match_here_def starts_with_take)

lemma search_from_eval [code]:
  "search_from prev kw [] = match_here prev kw []"
  "search_from prev kw (c # cs) =
     (if match_here prev kw (c # cs) then True else search_from (Some c) kw cs)"
  by simp_all

section \<open>Properties of the priority analyzer\<close>

lemma scan_keywords_fst:
  "fst (scan_keywords kws t (s, m)) = s + keyword_weight_sum kws t"
  by (induction kws arbitrary: s m) (auto simp: keyword_weight_sum_def)

lemma scan_levels_step:
  "scan_levels ((level, kws) # rest) t (f, m) =
   scan_levels rest t
     (f(level := f level + keyword_weight_sum kws t), snd (scan_keywords kws t (f level, m)))"
proof -
  obtain s m' where e: "scan_keywords kws t (f level, m) = (s, m')"
    by (cases "scan_keywords kws t (f level, m)")
  from e have "s = f level + keyword_weight_sum kws t"
    using scan_keywords_fst [of kws t "f level" m] by simp
  with e show ?thesis by simp
qed

lemma raw_scores_eq: "raw_scores t level = keyword_weight_sum (keywords_of level) t"
  unfolding raw_scores_def urgency_keywords_def
  by (cases level) (simp_all add: scan_levels_step del: scan_levels.simps(2))

lemma fold_max_Max: "fold max xs (m::real) = Max (set (m # xs))"
  by (rule Max.set_eq_fold [symmetric])

lemma scan_impact_fold:
  "scan_impact tbl t m =
   fold max (map snd (filter (\<lambda>p. find_keyword_in_text (fst p) t) tbl)) m"
  by (induction tbl arbitrary: m) (auto simp: max.commute)

lemma impact_table_ge_1: "\<forall>p \<in> set impact_multipliers. 1 \<le> snd p"
  by (simp add: impact_multipliers_def)

lemma matching_multipliers_ge_1: "x \<in> set (matching_multipliers t) \<Longrightarrow> 1 \<le> x"
  using impact_table_ge_1 by (auto simp: matching_multipliers_def)

lemma impact_multiplier_eq: "impact_multiplier_of t = spec_impact_multiplier t"
proof (cases "matching_multipliers t = []")
  case True
  then show ?thesis
    by (simp add: impact_multiplier_of_def spec_impact_multiplier_def scan_impact_fold
        matching_multipliers_def)
next
  case False
  have "impact_multiplier_of t = Max (insert 1 (set (matching_multipliers t)))"
    by (simp add: impact_multiplier_of_def scan_impact_fold fold_max_Max
        matching_multipliers_def)
  also have "\<dots> = max 1 (Max (set (matching_multipliers t)))"
    using False by simp
  also have "\<dots> = Max (set (matching_multipliers t))"
  proof -
    obtain x where "x \<in> set (matching_multipliers t)" using False by (cases "matching_multipliers t") auto
    then have "1 \<le> x" "x \<le> Max (set (matching_multipliers t))"
      by (auto simp: matching_multipliers_ge_1)
    then show ?thesis by simp
  qed
  finally show ?thesis using False by (simp add: spec_impact_multiplier_def)
qed

lemma final_scores_eq:
  "final_scores (full_text_of ttl descr) level = spec_final_score ttl descr level"
  by (simp add: final_scores_def spec_final_score_def raw_scores_eq impact_multiplier_eq)

lemma weights_nonneg:
  "\<forall>kw \<in> set (keywords_of level). 0 \<le> snd kw"
  by (cases level)
     (simp_all add: critical_keywords_def high_keywords_def medium_keywords_def low_keywords_def)

lemma keyword_weight_sum_nonneg:
  "\<forall>kw \<in> set kws. 0 \<le> snd kw \<Longrightarrow> 0 \<le> keyword_weight_sum kws t"
  unfolding keyword_weight_sum_def by (induction kws) auto

lemma impact_multiplier_ge_1: "1 \<le> spec_impact_multiplier t"
proof (cases "matching_multipliers t")
  case Nil
  then show ?thesis by (simp add: spec_impact_multiplier_def)
next
  case (Cons x xs)
  then have "x \<in> set (matching_multipliers t)" by simp
  then have "1 \<le> x" "x \<le> Max (set (matching_multipliers t))"
    by (auto simp: matching_multipliers_ge_1)
  then have "1 \<le> Max (set (matching_multipliers t))" by linarith
  moreover have "matching_multipliers t \<noteq> []" using Cons by simp
  ultimately show ?thesis by (simp only: spec_impact_multiplier_def if_False)
qed

lemma spec_final_score_nonneg: "0 \<le> spec_final_score ttl descr level"
  unfolding spec_final_score_def
  using keyword_weight_sum_nonneg [OF weights_nonneg] impact_multiplier_ge_1
  by (smt (verit) mult_nonneg_nonneg)

lemma all_levels_iff: "(\<forall>l. P l) \<longleftrightarrow> P CRITICAL \<and> P HIGH \<and> P MEDIUM \<and> P LOW"
  by (metis PriorityLevel.exhaust)

lemma ex_levels_iff: "(\<exists>l. P l) \<longleftrightarrow> P CRITICAL \<or> P HIGH \<or> P MEDIUM \<or> P LOW"
  by (metis PriorityLevel.exhaust)

lemma winning_all_zero:
  "\<forall>l. scores l = 0 \<Longrightarrow> determine_winning_priority scores = MEDIUM"
  by (simp add: determine_winning_priority_def max_of_scores_def all_levels_def)

lemma winning_is_max:
  assumes "\<forall>l. 0 \<le> scores l" and "\<exists>l. scores l \<noteq> 0"
  shows "\<forall>l. scores l \<le> scores (determine_winning_priority scores)"
    and "\<forall>l. scores l = scores (determine_winning_priority scores) \<longrightarrow>
           level_value (determine_winning_priority scores) \<le> level_value l"
  using assms unfolding all_levels_iff ex_levels_iff
  by (auto simp: determine_winning_priority_def max_of_scores_def all_levels_def Let_def max_def)



subsection \<open>The classifier\<close>

lemma analyze_priority_level:
  "PriorityResult.priority_level (analyze_priority ttl descr) =
   determine_winning_priority (spec_final_score ttl descr)"
proof -
  have "final_scores (full_text_of ttl descr) = spec_final_score ttl descr"
    by (rule ext) (rule final_scores_eq)
  then show ?thesis by (simp add: analyze_priority_def Let_def)
qed

lemma analyze_priority_score:
  "PriorityResult.priority_score (analyze_priority ttl descr) =
   spec_final_score ttl descr (PriorityResult.priority_level (analyze_priority ttl descr))"
  by (simp add: analyze_priority_def Let_def final_scores_eq)

text \<open>
  C2. The level returned by the classifier has the highest final score (keyword-weight sum
  times impact multiplier); among levels of equal highest score the one earliest in the
  order CRITICAL, HIGH, MEDIUM, LOW is returned; a level whose score is strictly above all
  others is the result; and when all four scores are 0 the result is MEDIUM with score 0.
\<close>

theorem classify_winning_level:
  "PriorityResult.priority_score (analyze_priority ttl descr) =
     spec_final_score ttl descr (PriorityResult.priority_level (analyze_priority ttl descr))
   \<and> ((\<forall>l. spec_final_score ttl descr l = 0) \<longrightarrow>
        PriorityResult.priority_level (analyze_priority ttl descr) = MEDIUM
        \<and> PriorityResult.priority_score (analyze_priority ttl descr) = 0)
   \<and> ((\<exists>l. spec_final_score ttl descr l \<noteq> 0) \<longrightarrow>
        (\<forall>l. spec_final_score ttl descr l
              \<le> spec_final_score ttl descr
                   (PriorityResult.priority_level (analyze_priority ttl descr)))
        \<and> (\<forall>l. spec_final_score ttl descr l
                = spec_final_score ttl descr
                    (PriorityResult.priority_level (analyze_priority ttl descr))
              \<longrightarrow> level_value (PriorityResult.priority_level (analyze_priority ttl descr))
                    \<le> level_value l))
   \<and> (\<forall>l. (\<forall>l'. l' \<noteq> l \<longrightarrow> spec_final_score ttl descr l' < spec_final_score ttl descr l)
          \<longrightarrow> PriorityResult.priority_level (analyze_priority ttl descr) = l)"
proof -
  let ?S = "spec_final_score ttl descr"
  let ?w = "PriorityResult.priority_level (analyze_priority ttl descr)"
  have w: "?w = determine_winning_priority ?S" by (rule analyze_priority_level)
  have nonneg: "\<forall>l. 0 \<le> ?S l" by (simp add: spec_final_score_nonneg)
  have score: "PriorityResult.priority_score (analyze_priority ttl descr) = ?S ?w"
    by (rule analyze_priority_score)
  have zero: "(\<forall>l. ?S l = 0) \<longrightarrow>
      ?w = MEDIUM \<and> PriorityResult.priority_score (analyze_priority ttl descr) = 0"
    using score w winning_all_zero [of ?S] by auto
  have maxi: "(\<exists>l. ?S l \<noteq> 0) \<longrightarrow>
      (\<forall>l. ?S l \<le> ?S ?w) \<and> (\<forall>l. ?S l = ?S ?w \<longrightarrow> level_value ?w \<le> level_value l)"
    using winning_is_max [OF nonneg] w by simp
  have strict: "\<forall>l. (\<forall>l'. l' \<noteq> l \<longrightarrow> ?S l' < ?S l) \<longrightarrow> ?w = l"
  proof (intro allI impI)
    fix l assume top: "\<forall>l'. l' \<noteq> l \<longrightarrow> ?S l' < ?S l"
    show "?w = l"
    proof (rule ccontr)
      assume ne: "?w \<noteq> l"
      then have lt: "?S ?w < ?S l" using top by simp
      with nonneg have "?S l \<noteq> 0" by (smt (verit))
      then have "\<exists>l. ?S l \<noteq> 0" by blast
      with maxi have "?S l \<le> ?S ?w" by blast
      with lt show False by simp
    qed
  qed
  from score zero maxi strict show ?thesis by blast
qed

text \<open>
  C3. The impact multiplier is 1 when no impact phrase occurs in the lowercased text, and
  otherwise the maximum of the multipliers of the phrases that occur; the final score of
  every level, and so the score of the result, is the level's keyword-weight sum times
  this one multiplier.
\<close>

theorem impact_multiplier_is_maximum:
  "impact_multiplier_of (full_text_of ttl descr) =
     (if matching_multipliers (full_text_of ttl descr) = [] then 1
      else Max (set (matching_multipliers (full_text_of ttl descr))))
   \<and> final_scores (full_text_of ttl descr) level =
       keyword_weight_sum (keywords_of level) (full_text_of ttl descr)
         * impact_multiplier_of (full_text_of ttl descr)
   \<and> PriorityResult.priority_score (analyze_priority ttl descr) =
       keyword_weight_sum
         (keywords_of (PriorityResult.priority_level (analyze_priority ttl descr)))
         (full_text_of ttl descr)
       * impact_multiplier_of (full_text_of ttl descr)"
  using impact_multiplier_eq [of "full_text_of ttl descr"]
    final_scores_eq [of ttl descr level]
    analyze_priority_score [of ttl descr]
  by (simp add: spec_impact_multiplier_def spec_final_score_def)

lemma ex_text: "full_text_of ''vpn down'' ''now'' = ''vpn down now''"
  by (simp add: full_text_of_def lower_def lower_char_def)

lemma ex_crit: "keyword_weight_sum critical_keywords ''vpn down now'' = 10"
  by code_simp

lemma ex_high: "keyword_weight_sum high_keywords ''vpn down now'' = 0"
  by code_simp

lemma ex_medium: "keyword_weight_sum medium_keywords ''vpn down now'' = 0"
  by code_simp

lemma ex_low: "keyword_weight_sum low_keywords ''vpn down now'' = 0"
  by code_simp

lemma ex_mm: "matching_multipliers ''vpn down now'' = [1.8]"
  by code_simp

lemma ex_impact: "spec_impact_multiplier ''vpn down now'' = 1.8"
  by (simp add: spec_impact_multiplier_def ex_mm)

lemma ex_scores:
  "spec_final_score ''vpn down'' ''now'' CRITICAL = 18"
  "spec_final_score ''vpn down'' ''now'' HIGH = 0"
  "spec_final_score ''vpn down'' ''now'' MEDIUM = 0"
  "spec_final_score ''vpn down'' ''now'' LOW = 0"
  by (simp_all add: spec_final_score_def ex_text ex_crit ex_high ex_medium ex_low ex_impact)

theorem classify_winning_level_witness:
  "PriorityResult.priority_level (analyze_priority ''vpn down'' ''now'') = CRITICAL
   \<and> PriorityResult.priority_score (analyze_priority ''vpn down'' ''now'') = 18"
proof -
  have "\<forall>l'. l' \<noteq> CRITICAL \<longrightarrow>
          spec_final_score ''vpn down'' ''now'' l' < spec_final_score ''vpn down'' ''now'' CRITICAL"
    unfolding all_levels_iff by (simp add: ex_scores)
  with classify_winning_level [of "''vpn down''" "''now''"]
  have "PriorityResult.priority_level (analyze_priority ''vpn down'' ''now'') = CRITICAL"
    by blast
  with classify_winning_level [of "''vpn down''" "''now''"] show ?thesis
    by (simp add: ex_scores)
qed

theorem impact_multiplier_is_maximum_witness:
  "impact_multiplier_of (full_text_of ''vpn down'' ''now'') = 1.8
   \<and> final_scores (full_text_of ''vpn down'' ''now'') CRITICAL = 18"
  using impact_multiplier_is_maximum [of "''vpn down''" "''now''" CRITICAL]
  by (simp add: ex_text ex_mm ex_crit)

section \<open>Properties of the skill score\<close>

lemma count_keyword_matches_eq:
  "count_keyword_matches kws txt n =
   n + length (filter (\<lambda>keyword. re_search_word (lower keyword) txt) kws)"
  by (induction kws arbitrary: n) auto

lemma count_keyword_matches_skill:
  "count_keyword_matches (keywords_for_skill s) txt 0 = match_count s txt"
  by (simp add: count_keyword_matches_eq match_count_def)

lemma scan_skills_eq:
  "scan_skills sks txt (tot, n) =
   (tot + sum_list (map (skill_contribution txt) (matched_skills_of txt sks)),
    n + length (matched_skills_of txt sks))"
proof (induction sks arbitrary: tot n)
  case Nil
  then show ?case by (simp add: matched_skills_of_def)
next
  case (Cons sk sks)
  obtain s l where sk: "sk = (s, l)" by (cases sk)
  show ?case
    unfolding sk
    by (simp add: Cons.IH count_keyword_matches_skill matched_skills_of_def
        skill_contribution_def Let_def)
qed

lemma calculate_skill_match_eq_min:
  "calculate_skill_match t a = min (spec_skill_score (skill_text t) (skills a)) 1"
  by (simp add: calculate_skill_match_def scan_skills_eq spec_skill_score_def)

lemma skill_contribution_bounds:
  assumes "0 \<le> snd sk" and "snd sk \<le> 10"
  shows "0 \<le> skill_contribution txt sk" and "skill_contribution txt sk \<le> 1"
proof -
  let ?l = "real_of_int (snd sk) / 10"
  let ?m = "min (real (match_count (fst sk) txt) / 3) 1"
  have l: "0 \<le> ?l" "?l \<le> 1" using assms by simp_all
  have m: "0 \<le> ?m" "?m \<le> 1" by simp_all
  show "0 \<le> skill_contribution txt sk"
    unfolding skill_contribution_def using l(1) m(1) by (rule mult_nonneg_nonneg)
  have "?l * ?m \<le> 1 * 1" using l m by (intro mult_mono) simp_all
  then show "skill_contribution txt sk \<le> 1" by (simp add: skill_contribution_def)
qed

lemma sum_list_bounds:
  fixes f :: "'a \<Rightarrow> real"
  assumes "\<forall>x \<in> set xs. 0 \<le> f x \<and> f x \<le> 1"
  shows "0 \<le> sum_list (map f xs) \<and> sum_list (map f xs) \<le> real (length xs)"
  using assms by (induction xs) auto

lemma spec_skill_score_bounds:
  assumes "\<forall>sk \<in> set sks. 0 \<le> snd sk \<and> snd sk \<le> 10"
  shows "0 \<le> spec_skill_score txt sks \<and> spec_skill_score txt sks \<le> 1"
proof (cases "matched_skills_of txt sks = []")
  case True
  then show ?thesis by (simp add: spec_skill_score_def)
next
  case False
  let ?ms = "matched_skills_of txt sks"
  have "\<forall>sk \<in> set ?ms. 0 \<le> skill_contribution txt sk \<and> skill_contribution txt sk \<le> 1"
    using assms skill_contribution_bounds by (auto simp: matched_skills_of_def)
  then have b: "0 \<le> sum_list (map (skill_contribution txt) ?ms)"
    "sum_list (map (skill_contribution txt) ?ms) \<le> real (length ?ms)"
    using sum_list_bounds [of ?ms "skill_contribution txt"] by simp_all
  have pos: "0 < real (length ?ms)" using False by simp
  have "sum_list (map (skill_contribution txt) ?ms) / real (length ?ms) \<le> 1"
    using b(2) pos by (simp add: divide_le_eq)
  moreover have "0 \<le> sum_list (map (skill_contribution txt) ?ms) / real (length ?ms)"
    using b(1) pos by simp
  ultimately show ?thesis using False by (simp add: spec_skill_score_def)
qed

lemma unknown_skill_no_match: "\<not> known_skill sk \<Longrightarrow> match_count (fst sk) txt = 0"
  by (simp add: known_skill_def match_count_def keywords_for_skill_def)

lemma matched_skills_known:
  "matched_skills_of txt (filter known_skill sks) = matched_skills_of txt sks"
proof -
  have "\<And>sk. (known_skill sk \<and> 0 < match_count (fst sk) txt) = (0 < match_count (fst sk) txt)"
    using unknown_skill_no_match by fastforce
  then show ?thesis by (simp add: matched_skills_of_def)
qed

lemma spec_skill_score_known:
  "spec_skill_score txt (filter known_skill sks) = spec_skill_score txt sks"
  by (simp add: spec_skill_score_def matched_skills_known)

text \<open>
  C4. For an agent whose skill levels lie between 0 and 10, the skill score is the average
  contribution \<open>(level / 10) * min (matches / 3) 1\<close> over the declared skills with at
  least one matching keyword; it lies in \<open>[0, 1]\<close>; it is 0 when no declared skill has a
  match; and skills that are not in the configuration table do not change it.
\<close>

theorem skill_match_is_average:
  assumes "\<forall>sk \<in> set (skills a). 0 \<le> snd sk \<and> snd sk \<le> 10"
  shows "calculate_skill_match t a = spec_skill_score (skill_text t) (skills a)
     \<and> 0 \<le> calculate_skill_match t a \<and> calculate_skill_match t a \<le> 1
     \<and> (matched_skills_of (skill_text t) (skills a) = [] \<longrightarrow> calculate_skill_match t a = 0)
     \<and> calculate_skill_match t (a\<lparr>skills := filter known_skill (skills a)\<rparr>)
         = calculate_skill_match t a"
proof -
  have b: "0 \<le> spec_skill_score (skill_text t) (skills a)"
    "spec_skill_score (skill_text t) (skills a) \<le> 1"
    using spec_skill_score_bounds [OF assms] by simp_all
  have e: "calculate_skill_match t a = spec_skill_score (skill_text t) (skills a)"
    using b(2) by (simp add: calculate_skill_match_eq_min)
  have z: "matched_skills_of (skill_text t) (skills a) = [] \<longrightarrow> calculate_skill_match t a = 0"
    by (simp add: e spec_skill_score_def)
  have k: "calculate_skill_match t (a\<lparr>skills := filter known_skill (skills a)\<rparr>)
         = calculate_skill_match t a"
    by (simp add: calculate_skill_match_eq_min spec_skill_score_known)
  from b e z k show ?thesis by simp
qed

lemma example_skill_text: "skill_text example_ticket = ''vpn down now''"
  by (simp add: skill_text_def example_ticket_def lower_def lower_char_def)

lemma example_match_networking: "match_count ''Networking'' ''vpn down now'' = 1"
  by code_simp

lemma example_match_juggling: "match_count ''Juggling'' ''vpn down now'' = 0"
  by code_simp

lemma example_score_ann: "spec_skill_score (skill_text example_ticket) (skills agent_ann) = 0.3"
  by (simp add: example_skill_text agent_ann_def spec_skill_score_def matched_skills_of_def
      skill_contribution_def example_match_networking example_match_juggling)

theorem skill_match_is_average_witness:
  "calculate_skill_match example_ticket agent_ann = 0.3
   \<and> calculate_skill_match example_ticket agent_ann
       = spec_skill_score (skill_text example_ticket) (skills agent_ann)"
proof -
  have h: "\<forall>sk \<in> set (skills agent_ann). 0 \<le> snd sk \<and> snd sk \<le> 10"
    by (simp add: agent_ann_def)
  from skill_match_is_average [OF h, of example_ticket] show ?thesis
    by (simp add: example_score_ann)
qed
section \<open>Properties of the allocator\<close>

subsection \<open>Ticket order\<close>

lemma insort_pairs:
  assumes "\<forall>y \<in> set ys. snd y = classify (fst y)"
  shows "map fst (insort_key sort_key_of (t, classify t) ys) = insort_key ticket_key t (map fst ys)"
  using assms by (induction ys) (auto simp: sort_key_of_def ticket_key_def)

lemma sort_pairs:
  "map fst (sort_key sort_key_of (map (\<lambda>t. (t, classify t)) ts)) = sort_key ticket_key ts"
proof (induction ts)
  case Nil
  then show ?case by simp
next
  case (Cons t ts)
  have inv: "\<forall>y \<in> set (sort_key sort_key_of (map (\<lambda>t. (t, classify t)) ts)).
               snd y = classify (fst y)"
    by auto
  show ?case
    using insort_pairs [OF inv, of t] Cons.IH by simp
qed

lemma prioritize_tickets_eq: "prioritize_tickets ts = sort_key ticket_key ts"
  using sort_pairs [of ts] by (simp add: prioritize_tickets_def classify_def)

lemma assign_single_ticket_id [simp]:
  "AgentAssignment.ticket_id (assign_single_ticket t ags wl) = ticket.ticket_id t"
  by (simp add: assign_single_ticket_def Let_def)




subsection \<open>Selecting the agent\<close>

lemma priority_constant_eq: "get_priority_multiplier level = priority_constant level"
  by (cases level) (simp_all add: priority_constant_def)

lemma select_agent_unavailable:
  "\<not> is_available a \<Longrightarrow> select_agent t pr wl (a # rest) b = select_agent t pr wl rest b"
  by simp

lemma select_agent_available:
  "is_available a \<Longrightarrow>
   select_agent t (classify t) wl (a # rest) b =
     (if composite_score t wl a > best_score b
      then select_agent t (classify t) wl rest (chosen_best t wl a)
      else select_agent t (classify t) wl rest b)"
  by (simp add: Let_def composite_score_def chosen_best_def workload_factor_of_def
      experience_bonus_of_def priority_constant_eq mult.commute)

lemma select_agent_cases:
  "(select_agent t (classify t) wl ags b = b
      \<and> (\<forall>x \<in> set (filter is_available ags). composite_score t wl x \<le> best_score b))
   \<or> (\<exists>pre a post. filter is_available ags = pre @ a # post
         \<and> select_agent t (classify t) wl ags b = chosen_best t wl a
         \<and> best_score b < composite_score t wl a
         \<and> (\<forall>x \<in> set pre. composite_score t wl x < composite_score t wl a)
         \<and> (\<forall>x \<in> set post. composite_score t wl x \<le> composite_score t wl a))"
proof (induction ags arbitrary: b)
  case Nil
  then show ?case by simp
next
  case (Cons a rest)
  let ?f = "composite_score t wl"
  show ?case
  proof (cases "is_available a")
    case False
    then show ?thesis using Cons.IH [of b] by (simp del: select_agent.simps)
        (simp add: select_agent_unavailable)
  next
    case True
    show ?thesis
    proof (cases "?f a > best_score b")
      case better: True
      have step: "select_agent t (classify t) wl (a # rest) b
                  = select_agent t (classify t) wl rest (chosen_best t wl a)"
        using True better by (simp only: select_agent_available if_True)
      have bs: "best_score (chosen_best t wl a) = ?f a" by (simp add: chosen_best_def)
      from Cons.IH [of "chosen_best t wl a"] show ?thesis
      proof (elim disjE conjE exE)
        assume same: "select_agent t (classify t) wl rest (chosen_best t wl a) = chosen_best t wl a"
          and le: "\<forall>x \<in> set (filter is_available rest). ?f x \<le> best_score (chosen_best t wl a)"
        have "filter is_available (a # rest) = [] @ a # filter is_available rest"
          using True by simp
        moreover have "select_agent t (classify t) wl (a # rest) b = chosen_best t wl a"
          using step same by simp
        moreover have "\<forall>x \<in> set (filter is_available rest). ?f x \<le> ?f a"
          using le bs by simp
        ultimately show ?thesis using better by (intro disjI2 exI conjI) auto
      next
        fix pre a' post
        assume split: "filter is_available rest = pre @ a' # post"
          and res: "select_agent t (classify t) wl rest (chosen_best t wl a) = chosen_best t wl a'"
          and gt: "best_score (chosen_best t wl a) < ?f a'"
          and pre: "\<forall>x \<in> set pre. ?f x < ?f a'"
          and post: "\<forall>x \<in> set post. ?f x \<le> ?f a'"
        have "filter is_available (a # rest) = (a # pre) @ a' # post"
          using True split by simp
        moreover have "select_agent t (classify t) wl (a # rest) b = chosen_best t wl a'"
          using step res by simp
        moreover have "best_score b < ?f a'" using better gt bs by simp
        moreover have "\<forall>x \<in> set (a # pre). ?f x < ?f a'" using pre gt bs by simp
        ultimately show ?thesis using post by (intro disjI2 exI conjI) auto
      qed
    next
      case worse: False
      have step: "select_agent t (classify t) wl (a # rest) b
                  = select_agent t (classify t) wl rest b"
        using True worse by (simp only: select_agent_available if_False)
      from Cons.IH [of b] show ?thesis
      proof (elim disjE conjE exE)
        assume same: "select_agent t (classify t) wl rest b = b"
          and le: "\<forall>x \<in> set (filter is_available rest). ?f x \<le> best_score b"
        have "select_agent t (classify t) wl (a # rest) b = b" using step same by simp
        moreover have "\<forall>x \<in> set (filter is_available (a # rest)). ?f x \<le> best_score b"
          using le worse True by auto
        ultimately show ?thesis by (intro disjI1 conjI)
      next
        fix pre a' post
        assume split: "filter is_available rest = pre @ a' # post"
          and res: "select_agent t (classify t) wl rest b = chosen_best t wl a'"
          and gt: "best_score b < ?f a'"
          and pre: "\<forall>x \<in> set pre. ?f x < ?f a'"
          and post: "\<forall>x \<in> set post. ?f x \<le> ?f a'"
        have "filter is_available (a # rest) = (a # pre) @ a' # post"
          using True split by simp
        moreover have "select_agent t (classify t) wl (a # rest) b = chosen_best t wl a'"
          using step res by simp
        moreover have "\<forall>x \<in> set (a # pre). ?f x < ?f a'" using pre gt worse by auto
        ultimately show ?thesis using post gt by (intro disjI2 exI conjI) auto
      qed
    qed
  qed
qed





lemma assign_single_ticket_eq:
  "assign_single_ticket t ags wl =
     (let b = select_agent t (classify t) wl ags initial_best;
          chosen = (case best_agent b of
                      Some a \<Rightarrow> (agent_id a, best_rationale b)
                    | None \<Rightarrow> fallback_choice ags)
      in \<lparr> ticket_id = ticket.ticket_id t,
           assigned_agent_id = fst chosen,
           rationale = snd chosen,
           priority_level = level_name (PriorityResult.priority_level (classify t)),
           priority_score = PriorityResult.priority_score (classify t),
           skill_match_score = best_skill_score b,
           workload_factor = best_workload_factor b,
           final_score = best_score b \<rparr>)"
  by (simp add: assign_single_ticket_def classify_def Let_def)

lemma assign_single_ticket_chosen:
  assumes "select_agent t (classify t) wl ags initial_best = chosen_best t wl a"
  shows "assigned_agent_id (assign_single_ticket t ags wl) = agent_id a"
    and "final_score (assign_single_ticket t ags wl) = composite_score t wl a"
    and "skill_match_score (assign_single_ticket t ags wl) = calculate_skill_match t a"
    and "workload_factor (assign_single_ticket t ags wl) = workload_factor_of wl a"
  using assms by (simp_all add: assign_single_ticket_eq chosen_best_def Let_def)

lemma assign_single_ticket_fallback:
  assumes "select_agent t (classify t) wl ags initial_best = initial_best"
  shows "assigned_agent_id (assign_single_ticket t ags wl) = fst (fallback_choice ags)"
    and "rationale (assign_single_ticket t ags wl) = snd (fallback_choice ags)"
    and "final_score (assign_single_ticket t ags wl) = - 1"
    and "skill_match_score (assign_single_ticket t ags wl) = 0"
    and "workload_factor (assign_single_ticket t ags wl) = 0"
  using assms by (simp_all add: assign_single_ticket_eq initial_best_def Let_def)


lemma fallback_choice_available:
  assumes "filter is_available ags = c # cs"
  shows "fst (fallback_choice ags) = agent_id c" and "c \<in> set ags" and "is_available c"
proof -
  show "fst (fallback_choice ags) = agent_id c" using assms by (simp add: fallback_choice_def)
  have "c \<in> set (filter is_available ags)" using assms by simp
  then show "c \<in> set ags" and "is_available c" by simp_all
qed

lemma fallback_choice_emergency:
  assumes "filter is_available ags = []"
  shows "fallback_choice ags =
           (case ags of a # _ \<Rightarrow> agent_id a | [] \<Rightarrow> ''agent_001'', emergency_rationale)"
  using assms by (simp add: fallback_choice_def emergency_rationale_def)

lemma assigned_agent_cases:
  "(\<exists>a \<in> set ags. is_available a
       \<and> assigned_agent_id (assign_single_ticket t ags wl) = agent_id a)
   \<or> (filter is_available ags = []
       \<and> assigned_agent_id (assign_single_ticket t ags wl)
           = (case ags of a # _ \<Rightarrow> agent_id a | [] \<Rightarrow> ''agent_001'')
       \<and> rationale (assign_single_ticket t ags wl) = emergency_rationale)"
proof -
  from select_agent_cases [of t wl ags initial_best] show ?thesis
  proof (elim disjE conjE exE)
    assume same: "select_agent t (classify t) wl ags initial_best = initial_best"
    show ?thesis
    proof (cases "filter is_available ags")
      case Nil
      then show ?thesis
        using assign_single_ticket_fallback(1,2) [OF same] fallback_choice_emergency [OF Nil]
        by simp
    next
      case (Cons c cs)
      then show ?thesis
        using assign_single_ticket_fallback(1) [OF same] fallback_choice_available [OF Cons]
        by auto
    qed
  next
    fix pre a post
    assume split: "filter is_available ags = pre @ a # post"
      and res: "select_agent t (classify t) wl ags initial_best = chosen_best t wl a"
    have "a \<in> set (filter is_available ags)" using split by simp
    then have "a \<in> set ags" "is_available a" by simp_all
    then show ?thesis using assign_single_ticket_chosen(1) [OF res] by auto
  qed
qed

lemma no_available_sentinels:
  assumes "filter is_available ags = []"
  shows "final_score (assign_single_ticket t ags wl) = - 1"
    and "skill_match_score (assign_single_ticket t ags wl) = 0"
    and "workload_factor (assign_single_ticket t ags wl) = 0"
proof -
  have "select_agent t (classify t) wl ags initial_best = initial_best"
    using select_agent_cases [of t wl ags initial_best] assms by auto
  then show "final_score (assign_single_ticket t ags wl) = - 1"
    and "skill_match_score (assign_single_ticket t ags wl) = 0"
    and "workload_factor (assign_single_ticket t ags wl) = 0"
    by (simp_all add: assign_single_ticket_fallback)
qed

subsection \<open>The main loop and the workload counters\<close>

lemma counters_after_Nil [simp]: "counters_after wl [] = wl"
proof
  fix ident show "counters_after wl [] ident = wl ident"
    by (cases "wl ident") (simp_all add: counters_after_def commits_to_def)
qed

lemma counters_after_step:
  assumes "wl (assigned_agent_id r) = Some n"
  shows "counters_after (wl(assigned_agent_id r \<mapsto> n + 1)) recs = counters_after wl (r # recs)"
proof
  fix ident
  show "counters_after (wl(assigned_agent_id r \<mapsto> n + 1)) recs ident
        = counters_after wl (r # recs) ident"
    using assms by (cases "wl ident") (auto simp: counters_after_def commits_to_def)
qed




lemma assign_loop_state:
  "assign_loop ts ags (acc, wl) = Inr (recs, wl') \<Longrightarrow>
   \<exists>new. recs = acc @ new \<and> length new = length ts \<and> wl' = counters_after wl new
     \<and> (\<forall>k < length ts.
           new ! k = assign_single_ticket (ts ! k) ags (counters_after wl (take k new))
           \<and> counters_after wl (take k new) (assigned_agent_id (new ! k)) \<noteq> None)"
proof (induction ts arbitrary: acc wl)
  case Nil
  then show ?case by simp
next
  case (Cons t ts)
  let ?r = "assign_single_ticket t ags wl"
  from Cons.prems obtain n where n: "wl (assigned_agent_id ?r) = Some n"
    and rest: "assign_loop ts ags (acc @ [?r], wl(assigned_agent_id ?r \<mapsto> n + 1)) = Inr (recs, wl')"
    by (auto simp: Let_def split: option.splits)
  let ?wl1 = "wl(assigned_agent_id ?r \<mapsto> n + 1)"
  from Cons.IH [OF rest] obtain new where new: "recs = (acc @ [?r]) @ new"
    "length new = length ts" "wl' = counters_after ?wl1 new"
    and nth: "\<forall>k < length ts.
           new ! k = assign_single_ticket (ts ! k) ags (counters_after ?wl1 (take k new))
           \<and> counters_after ?wl1 (take k new) (assigned_agent_id (new ! k)) \<noteq> None"
    by blast
  have step: "\<And>xs. counters_after ?wl1 xs = counters_after wl (?r # xs)"
    using counters_after_step [of wl ?r n] n by simp
  have "\<forall>k < length (t # ts).
           (?r # new) ! k
             = assign_single_ticket ((t # ts) ! k) ags (counters_after wl (take k (?r # new)))
           \<and> counters_after wl (take k (?r # new)) (assigned_agent_id ((?r # new) ! k)) \<noteq> None"
  proof (intro allI impI)
    fix k assume k: "k < length (t # ts)"
    show "(?r # new) ! k
             = assign_single_ticket ((t # ts) ! k) ags (counters_after wl (take k (?r # new)))
           \<and> counters_after wl (take k (?r # new)) (assigned_agent_id ((?r # new) ! k)) \<noteq> None"
    proof (cases k)
      case 0
      then show ?thesis using n by simp
    next
      case (Suc j)
      then have "j < length ts" using k by simp
      with nth have "new ! j = assign_single_ticket (ts ! j) ags (counters_after ?wl1 (take j new))"
        and "counters_after ?wl1 (take j new) (assigned_agent_id (new ! j)) \<noteq> None"
        by blast+
      then show ?thesis unfolding Suc step by simp
    qed
  qed
  moreover have "recs = acc @ (?r # new)" using new(1) by simp
  moreover have "length (?r # new) = length (t # ts)" using new(2) by simp
  moreover have "wl' = counters_after wl (?r # new)" using new(3) step by simp
  ultimately show ?case by blast
qed


lemma initial_workloads_dom: "dom (initial_workloads ags) = agent_id ` set ags"
proof -
  have "\<And>m. dom (fold (\<lambda>a m. m(agent_id a \<mapsto> current_load a)) ags m) = dom m \<union> agent_id ` set ags"
    by (induction ags) auto
  then show ?thesis by (simp add: initial_workloads_def)
qed




subsection \<open>Runs of the allocator\<close>

lemma assigned_agent_in_agents:
  assumes "ags \<noteq> []"
  shows "assigned_agent_id (assign_single_ticket t ags wl) \<in> agent_id ` set ags"
proof -
  from assigned_agent_cases [of ags t wl] show ?thesis
  proof
    assume "\<exists>a \<in> set ags. is_available a
       \<and> assigned_agent_id (assign_single_ticket t ags wl) = agent_id a"
    then show ?thesis by auto
  next
    assume "filter is_available ags = []
       \<and> assigned_agent_id (assign_single_ticket t ags wl)
           = (case ags of a # _ \<Rightarrow> agent_id a | [] \<Rightarrow> ''agent_001'')
       \<and> rationale (assign_single_ticket t ags wl) = emergency_rationale"
    then show ?thesis using assms by (cases ags) auto
  qed
qed

lemma assign_loop_total:
  assumes "ags \<noteq> []" and "agent_id ` set ags \<subseteq> dom wl"
  shows "\<exists>recs wl'. assign_loop ts ags (acc, wl) = Inr (recs, wl')"
  using assms(2)
proof (induction ts arbitrary: acc wl)
  case Nil
  then show ?case by simp
next
  case (Cons t ts)
  let ?r = "assign_single_ticket t ags wl"
  have "assigned_agent_id ?r \<in> dom wl"
    using assigned_agent_in_agents [OF assms(1)] Cons.prems by blast
  then obtain n where n: "wl (assigned_agent_id ?r) = Some n" by auto
  have "agent_id ` set ags \<subseteq> dom (wl(assigned_agent_id ?r \<mapsto> n + 1))"
    using Cons.prems by auto
  from Cons.IH [OF this, of "acc @ [?r]"] show ?case
    using n by (simp add: Let_def del: fun_upd_apply)
qed

lemma assign_tickets_Inr:
  "assign_tickets d = Inr recs \<longleftrightarrow>
   (\<exists>wl'. assign_loop (prioritize_tickets (tickets d)) (agents d)
             ([], initial_workloads (agents d)) = Inr (recs, wl'))"
  by (auto simp: assign_tickets_def split: sum.splits)

lemma assign_tickets_total:
  assumes "agents d \<noteq> []"
  shows "\<exists>recs. assign_tickets d = Inr recs"
  using assign_loop_total [OF assms, of "initial_workloads (agents d)"
      "prioritize_tickets (tickets d)" "[]"]
  by (auto simp: assign_tickets_Inr initial_workloads_dom)

lemma length_prioritize_tickets [simp]: "length (prioritize_tickets ts) = length ts"
  by (simp add: prioritize_tickets_eq)

lemma assign_tickets_length:
  "assign_tickets d = Inr recs \<Longrightarrow> length recs = length (tickets d)"
  by (auto simp: assign_tickets_Inr dest!: assign_loop_state)

lemma assign_tickets_nth:
  assumes "assign_tickets d = Inr recs" and "k < length recs"
  shows "recs ! k = assign_single_ticket (prioritize_tickets (tickets d) ! k) (agents d)
                      (counters_after (initial_workloads (agents d)) (take k recs))"
    and "counters_after (initial_workloads (agents d)) (take k recs)
           (assigned_agent_id (recs ! k)) \<noteq> None"
proof -
  from assms(1) obtain wl' where
    "assign_loop (prioritize_tickets (tickets d)) (agents d)
       ([], initial_workloads (agents d)) = Inr (recs, wl')"
    by (auto simp: assign_tickets_Inr)
  from assign_loop_state [OF this] assms(2)
  show "recs ! k = assign_single_ticket (prioritize_tickets (tickets d) ! k) (agents d)
                      (counters_after (initial_workloads (agents d)) (take k recs))"
    and "counters_after (initial_workloads (agents d)) (take k recs)
           (assigned_agent_id (recs ! k)) \<noteq> None"
    by auto
qed

lemma assign_tickets_record:
  assumes "assign_tickets d = Inr recs" and "r \<in> set recs"
  shows "\<exists>t wl. r = assign_single_ticket t (agents d) wl"
proof -
  from assms(2) obtain k where "k < length recs" "r = recs ! k"
    by (auto simp: in_set_conv_nth)
  then show ?thesis using assign_tickets_nth(1) [OF assms(1)] by blast
qed

lemma valid_status_available:
  assumes "availability_status a \<in> valid_statuses" and "is_available a"
  shows "availability_status a = ''Available''"
  using assms by (auto simp: valid_statuses_def is_available_def lower_def lower_char_def)

text \<open>
  C7. Every record of a run names an agent of the list that passes the availability test
  of the code (its status, lowercased, is \<open>available\<close>; among the four states of the data
  model that is the state \<open>Available\<close>), unless no agent of the list is available, in which
  case the record carries the emergency rationale. The list and its statuses do not change
  during the run.
\<close>

theorem assigned_agent_is_available:
  assumes "assign_tickets d = Inr recs" and "r \<in> set recs"
  shows "(\<exists>a \<in> set (agents d). agent_id a = assigned_agent_id r \<and> is_available a
            \<and> (availability_status a \<in> valid_statuses
                 \<longrightarrow> availability_status a = ''Available''))
         \<or> (filter is_available (agents d) = [] \<and> rationale r = emergency_rationale)"
proof -
  from assign_tickets_record [OF assms] obtain t wl
    where r: "r = assign_single_ticket t (agents d) wl" by blast
  from assigned_agent_cases [of "agents d" t wl] show ?thesis
  proof
    assume "\<exists>a \<in> set (agents d). is_available a
       \<and> assigned_agent_id (assign_single_ticket t (agents d) wl) = agent_id a"
    then obtain a where a: "a \<in> set (agents d)" "is_available a"
      "assigned_agent_id r = agent_id a" unfolding r by blast
    have "availability_status a \<in> valid_statuses \<longrightarrow> availability_status a = ''Available''"
      using valid_status_available [of a] a(2) by blast
    with a show ?thesis by auto
  next
    assume "filter is_available (agents d) = []
       \<and> assigned_agent_id (assign_single_ticket t (agents d) wl)
           = (case agents d of a # _ \<Rightarrow> agent_id a | [] \<Rightarrow> ''agent_001'')
       \<and> rationale (assign_single_ticket t (agents d) wl) = emergency_rationale"
    then show ?thesis unfolding r by simp
  qed
qed

text \<open>
  C10. When no agent of the list is available, the record emitted for a ticket has
  \<open>final_score = -1\<close>, \<open>skill_match_score = 0\<close> and \<open>workload_factor = 0\<close>, the initial
  values of the \<open>best_*\<close> variables; so has every record of a run that returns.
\<close>

theorem no_available_agent_sentinel_scores:
  assumes "\<forall>a \<in> set ags. \<not> is_available a"
  shows "final_score (assign_single_ticket t ags wl) = - 1
     \<and> skill_match_score (assign_single_ticket t ags wl) = 0
     \<and> workload_factor (assign_single_ticket t ags wl) = 0
     \<and> (\<forall>recs. assign_tickets \<lparr> agents = ags, tickets = ts \<rparr> = Inr recs \<longrightarrow>
          (\<forall>r \<in> set recs. final_score r = - 1 \<and> skill_match_score r = 0
                           \<and> workload_factor r = 0))"
proof -
  have none: "filter is_available ags = []" using assms by (simp add: filter_empty_conv)
  have single: "\<And>t wl. final_score (assign_single_ticket t ags wl) = - 1
     \<and> skill_match_score (assign_single_ticket t ags wl) = 0
     \<and> workload_factor (assign_single_ticket t ags wl) = 0"
    using no_available_sentinels [OF none] by simp
  have "\<forall>recs. assign_tickets \<lparr> agents = ags, tickets = ts \<rparr> = Inr recs \<longrightarrow>
          (\<forall>r \<in> set recs. final_score r = - 1 \<and> skill_match_score r = 0
                           \<and> workload_factor r = 0)"
  proof (intro allI impI ballI)
    fix recs r
    assume "assign_tickets \<lparr> agents = ags, tickets = ts \<rparr> = Inr recs" and "r \<in> set recs"
    from assign_tickets_record [OF this] obtain t wl
      where "r = assign_single_ticket t ags wl" by auto
    then show "final_score r = - 1 \<and> skill_match_score r = 0 \<and> workload_factor r = 0"
      using single by simp
  qed
  with single show ?thesis by blast
qed

lemma unavailable_agents_fallback:
  assumes "ags \<noteq> []" and "\<forall>a \<in> set ags. \<not> is_available a"
  shows "\<exists>recs. assign_tickets \<lparr> agents = ags, tickets = ts \<rparr> = Inr recs
     \<and> length recs = length ts
     \<and> (\<forall>r \<in> set recs. assigned_agent_id r = agent_id (hd ags)
                          \<and> rationale r = emergency_rationale)"
proof -
  have none: "filter is_available ags = []" using assms(2) by (simp add: filter_empty_conv)
  obtain recs where recs: "assign_tickets \<lparr> agents = ags, tickets = ts \<rparr> = Inr recs"
    using assign_tickets_total [of "\<lparr> agents = ags, tickets = ts \<rparr>"] assms(1) by auto
  have "\<forall>r \<in> set recs. assigned_agent_id r = agent_id (hd ags)
                          \<and> rationale r = emergency_rationale"
  proof
    fix r assume "r \<in> set recs"
    from assign_tickets_record [OF recs this] obtain t wl
      where r: "r = assign_single_ticket t ags wl" by auto
    have "\<not> (\<exists>a \<in> set ags. is_available a
       \<and> assigned_agent_id (assign_single_ticket t ags wl) = agent_id a)"
      using assms(2) by blast
    with assigned_agent_cases [of ags t wl]
    have "assigned_agent_id r = (case ags of a # _ \<Rightarrow> agent_id a | [] \<Rightarrow> ''agent_001'')"
      and "rationale r = emergency_rationale"
      unfolding r by blast+
    then show "assigned_agent_id r = agent_id (hd ags) \<and> rationale r = emergency_rationale"
      using assms(1) by (cases ags) simp_all
  qed
  then show ?thesis using recs assign_tickets_length [OF recs] by auto
qed

lemma no_agents_placeholder:
  "assigned_agent_id (assign_single_ticket t [] wl) = ''agent_001''"
  "rationale (assign_single_ticket t [] wl) = emergency_rationale"
  using assigned_agent_cases [of "[]" t wl] by simp_all

lemma no_agents_key_error:
  "assign_tickets \<lparr> agents = [], tickets = t # ts \<rparr> = Inl KeyError"
proof -
  have "length (prioritize_tickets (t # ts)) = Suc (length ts)" by simp
  then obtain t' ts' where "prioritize_tickets (t # ts) = t' # ts'"
    by (cases "prioritize_tickets (t # ts)") auto
  then show ?thesis
    by (simp add: assign_tickets_def initial_workloads_def Let_def)
qed

text \<open>
  C1. With an empty agent list and one ticket (the dataset of the ``No Agents'' edge case),
  \<open>_assign_single_ticket\<close> builds the record for the placeholder agent \<open>agent_001\<close>
  (lemma \<open>no_agents_placeholder\<close>), but \<open>assign_tickets\<close> then increments the counter of an
  identifier that is not a key of the empty dictionary: the call raises \<open>KeyError\<close> instead
  of returning one record. With a non-empty list of unavailable agents the run returns one
  record per ticket for the first agent of the list (lemma \<open>unavailable_agents_fallback\<close>).
\<close>

theorem no_agents_raises_key_error:
  "assign_tickets
     \<lparr> agents = [],
       tickets = [\<lparr> ticket.ticket_id = ''TKT-001'', title = ''Test'',
                    description = ''Test desc'' \<rparr>] \<rparr>
   = Inl KeyError"
  by (rule no_agents_key_error)



subsection \<open>The examples\<close>












lemma available_examples:
  "is_available agent_ann" "is_available agent_bob" "\<not> is_available agent_off"
  by (simp_all add: is_available_def agent_ann_def agent_bob_def agent_off_def lower_def
      lower_char_def)









lemma ann_dataset_run: "\<exists>recs. assign_tickets ann_dataset = Inr recs"
  using assign_tickets_total [of ann_dataset] by (simp add: ann_dataset_def)

lemma singleton_map:
  assumes "length xs = 1" and "\<forall>x \<in> set xs. f x = v"
  shows "map f xs = [v]"
  using assms by (cases xs) auto

theorem assigned_agent_is_available_witness:
  "is_available agent_ann
   \<and> (\<exists>recs. assign_tickets ann_dataset = Inr recs
         \<and> map assigned_agent_id recs = [''agent_001''])"
proof -
  obtain recs where recs: "assign_tickets ann_dataset = Inr recs"
    using ann_dataset_run by blast
  have len: "length recs = 1"
    using assign_tickets_length [OF recs] by (simp add: ann_dataset_def)
  have some: "filter is_available (agents ann_dataset) \<noteq> []"
    by (simp add: ann_dataset_def available_examples)
  have all: "\<forall>r \<in> set recs. assigned_agent_id r = ''agent_001''"
  proof
    fix r assume "r \<in> set recs"
    from assigned_agent_is_available [OF recs this] some
    obtain a where "a \<in> set (agents ann_dataset)" "agent_id a = assigned_agent_id r"
      by blast
    then show "assigned_agent_id r = ''agent_001''"
      by (simp add: ann_dataset_def agent_ann_def)
  qed
  have ids: "map assigned_agent_id recs = [''agent_001'']"
    by (rule singleton_map [OF len all])
  have run: "\<exists>recs. assign_tickets ann_dataset = Inr recs
         \<and> map assigned_agent_id recs = [''agent_001'']"
  proof (intro exI conjI)
    show "assign_tickets ann_dataset = Inr recs" by (rule recs)
    show "map assigned_agent_id recs = [''agent_001'']" by (rule ids)
  qed
  show ?thesis by (rule conjI [OF available_examples(1) run])
qed

theorem no_available_agent_sentinel_scores_witness:
  "\<not> is_available agent_off
   \<and> final_score (assign_single_ticket example_ticket [agent_off] Map.empty) = - 1
   \<and> skill_match_score (assign_single_ticket example_ticket [agent_off] Map.empty) = 0
   \<and> workload_factor (assign_single_ticket example_ticket [agent_off] Map.empty) = 0
   \<and> (\<exists>recs. assign_tickets offline_dataset = Inr recs
         \<and> map final_score recs = [- 1, - 1])"
proof -
  have h: "\<forall>a \<in> set [agent_off]. \<not> is_available a" by (simp add: available_examples)
  note T = no_available_agent_sentinel_scores
    [OF h, of example_ticket Map.empty "[help_ticket, example_ticket]"]
  obtain recs where recs: "assign_tickets offline_dataset = Inr recs"
    using assign_tickets_total [of offline_dataset] by (auto simp: offline_dataset_def)
  have len: "length recs = 2"
    using assign_tickets_length [OF recs] by (simp add: offline_dataset_def)
  have all: "\<forall>r \<in> set recs. final_score r = - 1"
    using T recs unfolding offline_dataset_def by blast
  from len obtain r1 r2 where two: "recs = [r1, r2]"
    by (metis (no_types) length_0_conv length_Suc_conv numeral_2_eq_2)
  have finals: "map final_score recs = [- 1, - 1]" using all unfolding two by simp
  have run: "\<exists>recs. assign_tickets offline_dataset = Inr recs
         \<and> map final_score recs = [- 1, - 1]"
  proof (intro exI conjI)
    show "assign_tickets offline_dataset = Inr recs" by (rule recs)
    show "map final_score recs = [- 1, - 1]" by (rule finals)
  qed
  from T have s: "final_score (assign_single_ticket example_ticket [agent_off] Map.empty) = - 1"
    "skill_match_score (assign_single_ticket example_ticket [agent_off] Map.empty) = 0"
    "workload_factor (assign_single_ticket example_ticket [agent_off] Map.empty) = 0"
    by simp_all
  show ?thesis
    by (rule conjI [OF available_examples(3) conjI [OF s(1) conjI [OF s(2) conjI [OF s(3) run]]]])
qed


end
